theory Spec2Isabelle
  imports Complex_Main "HOL-Library.Multiset" "HOL-Library.List_Lexorder" "HOL-Library.Char_ord"
    "HOL-Library.Product_Lexorder"
begin

section \<open>Retail inventory analysis: metric derivation, segmentation, aggregation\<close>

text \<open>
  A shallow embedding of \<^verbatim>\<open>retail_correlation_analysis.py\<close> (class \<^verbatim>\<open>RetailAnalytics\<close>).
  The data frame \<^verbatim>\<open>self.df\<close> is a list of rows, in index order. Numbers are exact:
  \<^typ>\<open>int\<close> for the INT columns of the table and \<^typ>\<open>real\<close> for DECIMAL and float64
  columns. Rounding of binary floating point is modelled where a property depends on it, in
  the sums of the revenue column; elsewhere a float is the real number it stands for. A float
  cell that may be NaN is a \<^typ>\<open>real option\<close>, with \<open>None\<close> for NaN.
\<close>

subsection \<open>The table \<^verbatim>\<open>retail_inventory\<close> and the query of \<^verbatim>\<open>load_data\<close>\<close>

text \<open>
  The columns the query selects from the table created by \<^verbatim>\<open>create_table_schema\<close>
  (\<^verbatim>\<open>retail_data_processor.py\<close>): every column is NOT NULL; \<^verbatim>\<open>inventory_level\<close>,
  \<^verbatim>\<open>units_sold\<close> and \<^verbatim>\<open>discount\<close> are (signed) INT, \<^verbatim>\<open>price\<close> is DECIMAL(10,2).
\<close>

record raw_row =
  date :: string
  store_id :: string
  product_id :: string
  category :: string
  region :: string
  seasonality :: string
  inventory_level :: int
  units_sold :: int
  price :: real
  discount :: int
  competitor_pricing :: real
  demand_forecast :: real
  weather_condition :: string
  holiday_promotion :: int

text \<open>The five computed columns of the SELECT list.\<close>

record row = raw_row +
  gross_revenue :: real
  net_revenue :: real
  overstock_units :: int
  turnover_ratio :: real
  profit_margin :: real

text \<open>\<^verbatim>\<open>WHERE inventory_level > 0 AND price > 0\<close>\<close>

definition where_clause :: "raw_row \<Rightarrow> bool" where
  "where_clause r \<longleftrightarrow> inventory_level r > 0 \<and> price r > 0"

text \<open>
  The SELECT list, one row at a time. The two CASE expressions are kept as written. The
  division of \<^verbatim>\<open>profit_margin\<close> is by \<^verbatim>\<open>units_sold * price\<close>, which is not zero on a
  row that passed the WHERE clause and has \<^verbatim>\<open>units_sold > 0\<close>; \<open>select_row\<close> is only
  applied to such rows by \<open>load_data\<close>.
\<close>

definition select_row :: "raw_row \<Rightarrow> row" where
  "select_row r = raw_row.extend r (row.fields
     (real_of_int (units_sold r) * price r)
     (real_of_int (units_sold r) * price r * (1 - real_of_int (discount r) / 100))
     (inventory_level r - units_sold r)
     (if inventory_level r > 0
      then real_of_int (units_sold r) / real_of_int (inventory_level r) else 0)
     (if units_sold r > 0
      then (real_of_int (units_sold r) * price r * (1 - real_of_int (discount r) / 100))
           / (real_of_int (units_sold r) * price r)
      else 0))"

text \<open>\<^verbatim>\<open>self.df = pd.read_sql(query, connection)\<close>: the data frame after a successful load.\<close>

definition load_data :: "raw_row list \<Rightarrow> row list" where
  "load_data tbl = map select_row (filter where_clause tbl)"

subsection \<open>\<^verbatim>\<open>calculate_inventory_metrics\<close>\<close>

datatype inventory_label = Fast_Moving | Normal | Slow_Moving | Dead_Stock

text \<open>A bin edge of \<^verbatim>\<open>pd.cut\<close>: a finite number or \<^verbatim>\<open>float('inf')\<close>.\<close>

datatype edge = Fin real | PInf

fun edge_less :: "edge \<Rightarrow> real \<Rightarrow> bool" where
  "edge_less (Fin b) x = (b < x)"
| "edge_less PInf x = False"

text \<open>
  \<^verbatim>\<open>bins.searchsorted(x, side='left')\<close> on increasing bins: the number of edges strictly
  below \<open>x\<close>.
\<close>

fun searchsorted_left :: "edge list \<Rightarrow> real \<Rightarrow> nat" where
  "searchsorted_left [] x = 0"
| "searchsorted_left (b # bs) x = (if edge_less b x then Suc (searchsorted_left bs x) else 0)"

text \<open>
  \<^verbatim>\<open>pd.cut(x, bins=..., labels=...)\<close> with the defaults \<^verbatim>\<open>right=True\<close>,
  \<^verbatim>\<open>include_lowest=False\<close>: the bin index is \<^verbatim>\<open>searchsorted(side='left')\<close>; index
  \<open>0\<close> (at or below the first edge) and index \<open>len(bins)\<close> are masked as NaN; otherwise
  the label is \<^verbatim>\<open>labels[ids - 1]\<close>.
\<close>

definition cut :: "real \<Rightarrow> edge list \<Rightarrow> 'a list \<Rightarrow> 'a option" where
  "cut x bins labels =
     (let ids = searchsorted_left bins x
      in if ids = 0 \<or> ids = length bins then None else Some (labels ! (ids - 1)))"

definition inventory_bins :: "edge list" where
  "inventory_bins = [Fin 0, Fin 15, Fin 30, Fin 60, PInf]"

definition inventory_labels :: "inventory_label list" where
  "inventory_labels = [Fast_Moving, Normal, Slow_Moving, Dead_Stock]"

record metric_row = row +
  inventory_days :: real
  profit_per_unit :: real
  efficiency_score :: real
  inventory_category :: "inventory_label option"

definition add_metrics :: "row \<Rightarrow> metric_row" where
  "add_metrics r =
     (let days = real_of_int (inventory_level r) / (real_of_int (units_sold r) + 0.1) * 30
      in row.extend r (metric_row.fields
           days
           (net_revenue r / (real_of_int (units_sold r) + 0.1))
           (turnover_ratio r * profit_margin r * 100)
           (cut days inventory_bins inventory_labels)))"

definition calculate_inventory_metrics :: "row list \<Rightarrow> metric_row list" where
  "calculate_inventory_metrics df = map add_metrics df"

subsection \<open>\<^verbatim>\<open>correlation_analysis\<close>: the significance tests\<close>

type_synonym cell = "real option"

text \<open>\<^verbatim>\<open>self.df[[var1, var2]].dropna()\<close>: the rows where neither cell is NaN.\<close>

fun dropna :: "(cell \<times> cell) list \<Rightarrow> (real \<times> real) list" where
  "dropna [] = []"
| "dropna ((Some x, Some y) # ps) = (x, y) # dropna ps"
| "dropna (_ # ps) = dropna ps"

text \<open>
  A column is its name and its cells. The columns tested hold no NaN in this model: the
  table's columns are NOT NULL and the denominators \<^verbatim>\<open>units_sold + 0.1\<close> are not zero.
\<close>

type_synonym column = "string \<times> (metric_row \<Rightarrow> cell)"

definition relationships_to_test :: "(column \<times> column) list" where
  "relationships_to_test =
     [((''inventory_days'', \<lambda>r. Some (inventory_days r)),
       (''profit_margin'', \<lambda>r. Some (profit_margin r))),
      ((''turnover_ratio'', \<lambda>r. Some (turnover_ratio r)),
       (''net_revenue'', \<lambda>r. Some (net_revenue r))),
      ((''inventory_level'', \<lambda>r. Some (real_of_int (inventory_level r))),
       (''efficiency_score'', \<lambda>r. Some (efficiency_score r)))]"

definition clean_data :: "column \<times> column \<Rightarrow> metric_row list \<Rightarrow> (real \<times> real) list" where
  "clean_data rel df = dropna (map (\<lambda>r. (snd (fst rel) r, snd (snd rel) r)) df)"

text \<open>One printed result: the two names, the coefficient, the p-value, the verdict.\<close>

record test_result =
  var1 :: string
  var2 :: string
  correlation :: real
  p_value :: real
  significance :: string

text \<open>
  The body of the loop (lines 148-155). \<^verbatim>\<open>scipy.stats.pearsonr\<close> is a library function
  and is a parameter of the model. Nothing is printed for a skipped pair.
\<close>

definition test_relationship ::
  "(real list \<Rightarrow> real list \<Rightarrow> real \<times> real) \<Rightarrow> metric_row list \<Rightarrow> column \<times> column
   \<Rightarrow> test_result list" where
  "test_relationship pearsonr df rel =
     (let clean = clean_data rel df
      in if length clean > 10
         then (let (c, p) = pearsonr (map fst clean) (map snd clean)
               in [\<lparr>var1 = fst (fst rel), var2 = fst (snd rel), correlation = c, p_value = p,
                     significance = (if p < 0.05 then ''Significant'' else ''Not Significant'')\<rparr>])
         else [])"

definition significance_tests ::
  "(real list \<Rightarrow> real list \<Rightarrow> real \<times> real) \<Rightarrow> metric_row list \<Rightarrow> test_result list" where
  "significance_tests pearsonr df = concat (map (test_relationship pearsonr df) relationships_to_test)"

subsection \<open>\<^verbatim>\<open>identify_problem_areas\<close>\<close>

text \<open>
  \<^verbatim>\<open>Series.quantile(q)\<close> for \<open>0 \<le> q \<le> 1\<close> (the source passes the constants 0.8, 0.3,
  0.7, 0.2), linear interpolation: on the sorted values, at the position \<open>q * (n - 1)\<close>,
  between the entry below and the next one. On an empty series the result is NaN.
\<close>

definition quantile :: "real list \<Rightarrow> real \<Rightarrow> cell" where
  "quantile xs q =
     (if xs = [] then None
      else (let v = sort xs;
                pos = q * real (length xs - 1);
                lo = nat \<lfloor>pos\<rfloor>;
                hi = min (lo + 1) (length xs - 1)
            in Some (v ! lo + (v ! hi - v ! lo) * (pos - real lo))))"

text \<open>A comparison with NaN is false.\<close>

fun gt_cell :: "real \<Rightarrow> cell \<Rightarrow> bool" where
  "gt_cell x None = False"
| "gt_cell x (Some t) = (x > t)"

fun lt_cell :: "real \<Rightarrow> cell \<Rightarrow> bool" where
  "lt_cell x None = False"
| "lt_cell x (Some t) = (x < t)"

datatype py_error = ValueError | IndexError

record segments =
  slow_moving :: "metric_row list"
  overstocked :: "metric_row list"
  dead_stock :: "metric_row list"

text \<open>
  The three local variables \<^verbatim>\<open>slow_moving\<close>, \<^verbatim>\<open>overstocked\<close> and \<^verbatim>\<open>dead_stock\<close>
  (lines 182-197), each a filter of the frame by a boolean mask.
\<close>

definition slow_moving_items :: "metric_row list \<Rightarrow> metric_row list" where
  "slow_moving_items rows = filter (\<lambda>r. inventory_days r > 45 \<and> turnover_ratio r < 0.3) rows"

definition overstocked_items :: "metric_row list \<Rightarrow> metric_row list" where
  "overstocked_items rows =
     filter (\<lambda>r.
         gt_cell (real_of_int (overstock_units r))
                 (quantile (map (\<lambda>r. real_of_int (overstock_units r)) rows) 0.8)
       \<and> lt_cell (efficiency_score r) (quantile (map efficiency_score rows) 0.3)) rows"

definition dead_stock_items :: "metric_row list \<Rightarrow> metric_row list" where
  "dead_stock_items rows = filter (\<lambda>r. inventory_days r > 90 \<and> units_sold r \<le> 1) rows"

text \<open>
  The argument is \<^verbatim>\<open>self.df\<close>, \<open>None\<close> before \<^verbatim>\<open>load_data\<close>; the method then prints a
  message and returns \<^verbatim>\<open>None\<close>. The result is the returned dictionary. The method has no
  \<^verbatim>\<open>raise\<close>, and the two printed summaries are guarded by \<^verbatim>\<open>len(...) > 0\<close>, so the
  model has no \<open>Inl\<close> branch.
\<close>

definition identify_problem_areas :: "metric_row list option \<Rightarrow> py_error + segments option" where
  "identify_problem_areas df =
     (case df of
        None \<Rightarrow> Inr None
      | Some rows \<Rightarrow>
          Inr (Some \<lparr>slow_moving = slow_moving_items rows,
                     overstocked = overstocked_items rows,
                     dead_stock = dead_stock_items rows\<rparr>))"

subsection \<open>Group-by and reductions\<close>

text \<open>
  \<^verbatim>\<open>df.groupby(key)\<close>: one group per distinct key, the keys in increasing order
  (\<^verbatim>\<open>sort=True\<close>), every group holding its rows in the order of the frame.
\<close>

definition groupby :: "('r \<Rightarrow> 'k::linorder) \<Rightarrow> 'r list \<Rightarrow> ('k \<times> 'r list) list" where
  "groupby key rows = map (\<lambda>k. (k, filter (\<lambda>r. key r = k) rows)) (sort (remdups (map key rows)))"

text \<open>
  \<^verbatim>\<open>groupby(key)[col].sum()\<close> of an integer column. The sums are int64; the values are 32-bit
  (INT columns and their difference) and the table has fewer than \<open>2^31\<close> rows (its key is an
  INT), so no sum wraps and the sum is the exact one.
\<close>

definition groupby_sum_int :: "('r \<Rightarrow> 'k::linorder) \<Rightarrow> ('r \<Rightarrow> int) \<Rightarrow> 'r list \<Rightarrow> ('k \<times> int) list" where
  "groupby_sum_int key val rows = map (\<lambda>(k, g). (k, sum_list (map val g))) (groupby key rows)"

definition mean :: "real list \<Rightarrow> real" where
  "mean xs = sum_list xs / real (length xs)"

definition groupby_mean :: "('r \<Rightarrow> 'k::linorder) \<Rightarrow> ('r \<Rightarrow> real) \<Rightarrow> 'r list \<Rightarrow> ('k \<times> real) list" where
  "groupby_mean key val rows = map (\<lambda>(k, g). (k, mean (map val g))) (groupby key rows)"

text \<open>\<^verbatim>\<open>.round(n)\<close> of a float: to the nearest multiple of \<open>10^-n\<close>, halves to even.\<close>

definition round_half_even :: "real \<Rightarrow> int" where
  "round_half_even x =
     (let f = \<lfloor>x\<rfloor>; d = x - of_int f
      in if d < 1 / 2 then f else if 1 / 2 < d then f + 1 else if even f then f else f + 1)"

definition np_round :: "nat \<Rightarrow> real \<Rightarrow> real" where
  "np_round n x = of_int (round_half_even (x * 10 ^ n)) / 10 ^ n"

text \<open>
  \<^verbatim>\<open>seasonal_analysis\<close>, lines 246-253: group by the two keys, reduce six columns, then
  \<^verbatim>\<open>.round(3)\<close>, which changes the float columns and leaves the integer sums as they are.
\<close>

record seasonal_row =
  sm_inventory_days :: real
  sm_turnover_ratio :: real
  sm_profit_margin :: real
  sm_net_revenue :: real
  sm_units_sold :: int
  sm_overstock_units :: int

definition seasonal_metrics :: "metric_row list \<Rightarrow> ((string \<times> string) \<times> seasonal_row) list" where
  "seasonal_metrics df =
     map (\<lambda>(k, g). (k,
        \<lparr>sm_inventory_days = np_round 3 (mean (map inventory_days g)),
         sm_turnover_ratio = np_round 3 (mean (map turnover_ratio g)),
         sm_profit_margin = np_round 3 (mean (map profit_margin g)),
         sm_net_revenue = np_round 3 (sum_list (map net_revenue g)),
         sm_units_sold = sum_list (map units_sold g),
         sm_overstock_units = sum_list (map overstock_units g)\<rparr>))
       (groupby (\<lambda>r. (seasonality r, category r)) df)"

subsection \<open>Sums of a float64 column\<close>

text \<open>
  \<^verbatim>\<open>pd.read_sql\<close> turns the DECIMAL \<^verbatim>\<open>net_revenue\<close> of the query into float64. A float64 is
  modelled by the real number it stands for. \<open>float64 x\<close> is the float64 nearest to \<open>x\<close>, ties
  to the even significand: 53 significant bits, or the multiples of \<open>2^-1074\<close> below
  \<open>2^-1022\<close>. Overflow to infinity is not modelled: a DECIMAL(10,2) price, 32-bit counts and
  fewer than \<open>2^31\<close> rows keep every sum far below \<open>2^1024\<close>.
\<close>

definition pow2 :: "int \<Rightarrow> real" where
  "pow2 e = (if 0 \<le> e then 2 ^ nat e else 1 / 2 ^ nat (- e))"

text \<open>
  The binary exponent of a number other than 0, the \<open>e\<close> with \<open>2^e \<le> \<bar>x\<bar> < 2^(e + 1)\<close>, found by
  halving or doubling.
\<close>

function exponent_up :: "real \<Rightarrow> int" where
  "exponent_up x = (if 2 \<le> x then exponent_up (x / 2) + 1 else 0)"
  by pat_completeness auto
termination
proof (relation "measure (\<lambda>x. nat \<lfloor>x\<rfloor>)")
  show "wf (measure (\<lambda>x. nat \<lfloor>x\<rfloor>))" by simp
next
  fix x :: real assume "2 \<le> x"
  then have "\<lfloor>x / 2\<rfloor> < \<lfloor>x\<rfloor>" "0 < \<lfloor>x\<rfloor>" by linarith+
  then show "(x / 2, x) \<in> measure (\<lambda>x. nat \<lfloor>x\<rfloor>)" by simp
qed

function exponent_down :: "real \<Rightarrow> int" where
  "exponent_down x = (if 0 < x \<and> x < 1 then exponent_down (2 * x) - 1 else 0)"
  by pat_completeness auto
termination
proof (relation "measure (\<lambda>x. nat \<lceil>1 / x\<rceil>)")
  show "wf (measure (\<lambda>x. nat \<lceil>1 / x\<rceil>))" by simp
next
  fix x :: real assume a: "0 < x \<and> x < 1"
  then have "1 < 1 / x" by simp
  then have c: "2 \<le> \<lceil>1 / x\<rceil>" by linarith
  have "1 / (2 * x) = (1 / x) / 2" by simp
  also have "\<dots> \<le> real_of_int \<lceil>1 / x\<rceil> / 2" by (simp add: divide_right_mono)
  also have "\<dots> \<le> real_of_int (\<lceil>1 / x\<rceil> - 1)" using c by simp
  finally have "\<lceil>1 / (2 * x)\<rceil> \<le> \<lceil>1 / x\<rceil> - 1" by (simp only: ceiling_le_iff)
  with c have "nat \<lceil>1 / (2 * x)\<rceil> < nat \<lceil>1 / x\<rceil>" by linarith
  then show "(2 * x, x) \<in> measure (\<lambda>x. nat \<lceil>1 / x\<rceil>)" by (simp only: in_measure)
qed

declare exponent_up.simps [simp del] exponent_down.simps [simp del]

definition exponent :: "real \<Rightarrow> int" where
  "exponent x = (if 1 \<le> \<bar>x\<bar> then exponent_up \<bar>x\<bar> else exponent_down \<bar>x\<bar>)"

definition float64 :: "real \<Rightarrow> real" where
  "float64 x =
     (if x = 0 then 0
      else (let e = max (exponent x) (- 1022); u = pow2 (e - 52)
            in real_of_int (round_half_even (x / u)) * u))"

text \<open>Addition and subtraction of two float64: the exact result, rounded.\<close>

definition fadd :: "real \<Rightarrow> real \<Rightarrow> real" where
  "fadd x y = float64 (x + y)"

definition fsub :: "real \<Rightarrow> real \<Rightarrow> real" where
  "fsub x y = float64 (x - y)"

text \<open>
  The group sums of \<^verbatim>\<open>groupby(...).sum()\<close> on a float column (\<^verbatim>\<open>group_sum\<close> of pandas): one
  pass over the values of the group with a running compensation (Kahan summation),
  \<^verbatim>\<open>y = val - compensation; t = sumx + y; compensation = t - sumx - y; sumx = t\<close>.
\<close>

fun kahan :: "real \<Rightarrow> real \<Rightarrow> real list \<Rightarrow> real" where
  "kahan sumx compensation [] = sumx"
| "kahan sumx compensation (val # vals) =
     (let y = fsub val compensation; t = fadd sumx y
      in kahan t (fsub (fsub t sumx) y) vals)"

definition group_sum :: "real list \<Rightarrow> real" where
  "group_sum vals = kahan 0 0 vals"

text \<open>
  \<^verbatim>\<open>Series.sum()\<close> on a float column without NaN is the sum of numpy: fewer than 8 entries
  are added one by one; up to 128 entries are added in 8 running sums, which are then added
  in pairs, and the rest one by one; a longer array is split in two halves, the first a
  multiple of 8 long.
\<close>

fun seq_sum :: "real \<Rightarrow> real list \<Rightarrow> real" where
  "seq_sum res [] = res"
| "seq_sum res (x # xs) = seq_sum (fadd res x) xs"

function unrolled :: "real list \<Rightarrow> real list \<Rightarrow> real list \<times> real list" where
  "unrolled r a =
     (if 8 \<le> length a then unrolled (map (\<lambda>(x, y). fadd x y) (zip r (take 8 a))) (drop 8 a)
      else (r, a))"
  by pat_completeness auto
termination
  by (relation "measure (\<lambda>(r, a). length a)") auto

definition block_sum :: "real list \<Rightarrow> real" where
  "block_sum a =
     (let (r, rest) = unrolled (take 8 a) (drop 8 a);
          res = fadd (fadd (fadd (r ! 0) (r ! 1)) (fadd (r ! 2) (r ! 3)))
                     (fadd (fadd (r ! 4) (r ! 5)) (fadd (r ! 6) (r ! 7)))
      in seq_sum res rest)"

function pairwise_sum :: "real list \<Rightarrow> real" where
  "pairwise_sum a =
     (let n = length a
      in if n < 8 then seq_sum 0 a
         else if n \<le> 128 then block_sum a
         else (let n2 = n div 2 - (n div 2) mod 8
               in fadd (pairwise_sum (take n2 a)) (pairwise_sum (drop n2 a))))"
  by pat_completeness auto
termination
  by (relation "measure length") auto

definition np_sum :: "real list \<Rightarrow> real" where
  "np_sum a = fadd 0 (pairwise_sum a)"

text \<open>
  \<^verbatim>\<open>generate_executive_summary\<close>, line 549, before \<^verbatim>\<open>sort_values\<close> and \<^verbatim>\<open>head(3)\<close>:
  \<^verbatim>\<open>self.df.groupby('category')['net_revenue'].sum()\<close>; and line 537,
  \<^verbatim>\<open>self.df['net_revenue'].sum()\<close>.
\<close>

definition category_revenue :: "metric_row list \<Rightarrow> (string \<times> real) list" where
  "category_revenue df =
     map (\<lambda>(k, g). (k, group_sum (map (\<lambda>r. float64 (net_revenue r)) g))) (groupby category df)"

definition total_revenue :: "metric_row list \<Rightarrow> real" where
  "total_revenue df = np_sum (map (\<lambda>r. float64 (net_revenue r)) df)"

subsection \<open>\<^verbatim>\<open>generate_strategic_recommendations\<close>: best and worst region and season\<close>

record regional_row =
  rp_inventory_days :: real
  rp_turnover_ratio :: real
  rp_net_revenue :: real
  rp_efficiency_score :: real

definition regional_performance :: "metric_row list \<Rightarrow> (string \<times> regional_row) list" where
  "regional_performance df =
     map (\<lambda>(k, g). (k,
        \<lparr>rp_inventory_days = np_round 3 (mean (map inventory_days g)),
         rp_turnover_ratio = np_round 3 (mean (map turnover_ratio g)),
         rp_net_revenue = np_round 3 (sum_list (map net_revenue g)),
         rp_efficiency_score = np_round 3 (mean (map efficiency_score g))\<rparr>))
       (groupby region df)"

text \<open>
  \<^verbatim>\<open>Series.idxmax()\<close> and \<^verbatim>\<open>Series.idxmin()\<close> on a series of numbers without NaN: the
  label of the first occurrence of the extreme value; ValueError on an empty series.
  The scan keeps the entry it holds unless the next one is strictly better.
\<close>

fun scan_max :: "'k \<times> real \<Rightarrow> ('k \<times> real) list \<Rightarrow> 'k \<times> real" where
  "scan_max best [] = best"
| "scan_max best (x # xs) = scan_max (if snd best < snd x then x else best) xs"

fun scan_min :: "'k \<times> real \<Rightarrow> ('k \<times> real) list \<Rightarrow> 'k \<times> real" where
  "scan_min best [] = best"
| "scan_min best (x # xs) = scan_min (if snd x < snd best then x else best) xs"

fun idxmax :: "('k \<times> real) list \<Rightarrow> py_error + 'k" where
  "idxmax [] = Inl ValueError"
| "idxmax (x # xs) = Inr (fst (scan_max x xs))"

fun idxmin :: "('k \<times> real) list \<Rightarrow> py_error + 'k" where
  "idxmin [] = Inl ValueError"
| "idxmin (x # xs) = Inr (fst (scan_min x xs))"

text \<open>\<^verbatim>\<open>regional_performance['efficiency_score']\<close>\<close>

definition regional_efficiency :: "metric_row list \<Rightarrow> (string \<times> real) list" where
  "regional_efficiency df = map (\<lambda>(k, p). (k, rp_efficiency_score p)) (regional_performance df)"

definition best_region :: "metric_row list \<Rightarrow> py_error + string" where
  "best_region df = idxmax (regional_efficiency df)"

definition worst_region :: "metric_row list \<Rightarrow> py_error + string" where
  "worst_region df = idxmin (regional_efficiency df)"

text \<open>
  \<^verbatim>\<open>sort_values(ascending=False)\<close>: pandas reverses the values, sorts them increasingly
  and reverses the result. The increasing sort is modelled by insertion sort, which is what
  the default \<^verbatim>\<open>quicksort\<close> of numpy does on at most 16 entries when it does not use a
  vectorised routine; it keeps equal entries in their order.
\<close>

definition sort_values_desc :: "('k \<times> real) list \<Rightarrow> ('k \<times> real) list" where
  "sort_values_desc s = rev (sort_key snd (rev s))"

definition seasonal_perf :: "metric_row list \<Rightarrow> (string \<times> real) list" where
  "seasonal_perf df = sort_values_desc (groupby_mean seasonality efficiency_score df)"

text \<open>\<^verbatim>\<open>seasonal_perf.index[0]\<close> and \<^verbatim>\<open>seasonal_perf.index[-1]\<close>: IndexError when empty.\<close>

definition best_season :: "metric_row list \<Rightarrow> py_error + string" where
  "best_season df = (case seasonal_perf df of [] \<Rightarrow> Inl IndexError | x # xs \<Rightarrow> Inr (fst x))"

definition worst_season :: "metric_row list \<Rightarrow> py_error + string" where
  "worst_season df =
     (case seasonal_perf df of [] \<Rightarrow> Inl IndexError | x # xs \<Rightarrow> Inr (fst (last (x # xs))))"

subsection \<open>Example rows\<close>

text \<open>A row of the table with the given category, region, season, stock, sales, price and discount.\<close>

definition example_row :: "string \<Rightarrow> string \<Rightarrow> string \<Rightarrow> int \<Rightarrow> int \<Rightarrow> real \<Rightarrow> int \<Rightarrow> raw_row" where
  "example_row cat reg seas stock sold p disc =
     \<lparr>date = ''2022-01-01'', store_id = ''S001'', product_id = ''P0001'', category = cat,
      region = reg, seasonality = seas, inventory_level = stock, units_sold = sold, price = p,
      discount = disc, competitor_pricing = p, demand_forecast = 0,
      weather_condition = ''Sunny'', holiday_promotion = 0\<rparr>"

definition analysed :: "raw_row list \<Rightarrow> metric_row list" where
  "analysed tbl = calculate_inventory_metrics (load_data tbl)"

definition sold_row :: raw_row where
  "sold_row = example_row ''Toys'' ''North'' ''Winter'' 100 10 50 20"

definition unsold_row :: raw_row where
  "unsold_row = example_row ''Toys'' ''North'' ''Winter'' 20 0 10 0"

definition autumn_row :: raw_row where
  "autumn_row = example_row ''Toys'' ''East'' ''Autumn'' 100 10 50 0"

definition winter_row :: raw_row where
  "winter_row = example_row ''Toys'' ''West'' ''Winter'' 100 10 50 0"

definition books_row :: raw_row where
  "books_row = example_row ''Books'' ''East'' ''Autumn'' 10 5 20 0"

definition idle_row :: raw_row where
  "idle_row = example_row ''Toys'' ''North'' ''Winter'' 100 0 10 0"

definition dime_book :: raw_row where
  "dime_book = example_row ''Books'' ''East'' ''Autumn'' 5 1 (1 / 10) 0"

definition dime_toy :: raw_row where
  "dime_toy = example_row ''Toys'' ''East'' ''Autumn'' 5 1 (1 / 10) 0"

definition dear_book :: raw_row where
  "dear_book = example_row ''Books'' ''East'' ''Autumn'' 5 1 (11 / 10) 0"

definition fast_row :: raw_row where
  "fast_row = example_row ''Toys'' ''North'' ''Winter'' 1 10 50 0"

definition normal_row :: raw_row where
  "normal_row = example_row ''Toys'' ''North'' ''Winter'' 10 10 50 0"

definition slow_row :: raw_row where
  "slow_row = example_row ''Toys'' ''North'' ''Winter'' 20 10 50 0"

definition returns_row :: raw_row where
  "returns_row = example_row ''Toys'' ''North'' ''Winter'' 100 (- 1) 50 0"

definition no_sales_row :: raw_row where
  "no_sales_row = example_row ''Toys'' ''North'' ''Winter'' 100 0 50 0"

section \<open>Properties\<close>

lemmas row_defs = raw_row.defs row.defs metric_row.defs

lemma select_row_raw [simp]:
  "inventory_level (select_row r) = inventory_level r"
  "units_sold (select_row r) = units_sold r"
  "price (select_row r) = price r"
  "discount (select_row r) = discount r"
  by (simp_all add: select_row_def row_defs)

lemma add_metrics_row [simp]:
  "inventory_level (add_metrics r) = inventory_level r"
  "units_sold (add_metrics r) = units_sold r"
  "turnover_ratio (add_metrics r) = turnover_ratio r"
  "profit_margin (add_metrics r) = profit_margin r"
  "net_revenue (add_metrics r) = net_revenue r"
  "overstock_units (add_metrics r) = overstock_units r"
  by (simp_all add: add_metrics_def row_defs Let_def)

lemma inventory_days_add_metrics:
  "inventory_days (add_metrics r) =
     real_of_int (inventory_level r) / (real_of_int (units_sold r) + 0.1) * 30"
  by (simp add: add_metrics_def row_defs Let_def)

lemma inventory_category_add_metrics:
  "inventory_category (add_metrics r) =
     cut (inventory_days (add_metrics r)) inventory_bins inventory_labels"
  by (simp add: add_metrics_def row_defs Let_def)

lemma profit_margin_select_row:
  "profit_margin (select_row r) =
    (if units_sold r > 0
      then (real_of_int (units_sold r) * price r * (1 - real_of_int (discount r) / 100))
           / (real_of_int (units_sold r) * price r)
      else 0)"
  by (simp add: select_row_def row_defs)

lemma turnover_ratio_select_row:
  "turnover_ratio (select_row r) =
     (if inventory_level r > 0
      then real_of_int (units_sold r) / real_of_int (inventory_level r) else 0)"
  by (simp add: select_row_def row_defs)

lemma cut_inventory:
  "cut d inventory_bins inventory_labels =
     (if d \<le> 0 then None
      else if d \<le> 15 then Some Fast_Moving
      else if d \<le> 30 then Some Normal
      else if d \<le> 60 then Some Slow_Moving
      else Some Dead_Stock)"
  by (simp add: cut_def inventory_bins_def inventory_labels_def)

text \<open>
  Claim C3. On every row the query delivers (so \<open>price > 0\<close>), \<^verbatim>\<open>profit_margin\<close> is
  \<open>1 - discount / 100\<close> when \<^verbatim>\<open>units_sold > 0\<close>, whatever the price and the number of units
  sold, and it is \<open>0\<close> when \<^verbatim>\<open>units_sold = 0\<close>.
\<close>

theorem profit_margin_formula:
  "x \<in> set (load_data tbl) \<Longrightarrow>
     (units_sold x > 0 \<longrightarrow> profit_margin x = 1 - real_of_int (discount x) / 100) \<and>
     (units_sold x = 0 \<longrightarrow> profit_margin x = 0)"
  by (auto simp: load_data_def where_clause_def profit_margin_select_row)

text \<open>
  Claim C7, as amended. For a fixed \<^verbatim>\<open>inventory_level > 0\<close>, \<^verbatim>\<open>inventory_days\<close> is strictly
  decreasing in \<^verbatim>\<open>units_sold\<close>: of two rows with the same stock and sales \<open>0 \<le> a < b\<close>, the row
  with \<open>b\<close> has strictly fewer inventory days. Sales are non-negative, as the data model has
  them.
\<close>

theorem inventory_days_decreasing:
  assumes "inventory_level r1 = inventory_level r2" "0 < inventory_level r1"
    "0 \<le> units_sold r1" "units_sold r1 < units_sold r2"
  shows "inventory_days (add_metrics r2) < inventory_days (add_metrics r1)"
proof -
  have "real_of_int (units_sold r1) + 0.1 < real_of_int (units_sold r2) + 0.1"
    using assms(4) by simp
  moreover have "0 < real_of_int (units_sold r1) + 0.1"
    using assms(3) by (simp add: add_pos_nonneg add.commute)
  moreover have "0 < real_of_int (inventory_level r2)" using assms(1,2) by simp
  ultimately have "real_of_int (inventory_level r2) / (real_of_int (units_sold r2) + 0.1)
      < real_of_int (inventory_level r2) / (real_of_int (units_sold r1) + 0.1)"
    by (intro divide_strict_left_mono mult_pos_pos) linarith+
  then have "real_of_int (inventory_level r2) / (real_of_int (units_sold r2) + 0.1) * 30
      < real_of_int (inventory_level r2) / (real_of_int (units_sold r1) + 0.1) * 30"
    by (rule mult_strict_right_mono) simp
  then show ?thesis
    unfolding inventory_days_add_metrics assms(1) .
qed

lemma inventory_days_pos:
  assumes "0 < inventory_level r" "0 \<le> units_sold r"
  shows "0 < inventory_days (add_metrics r)"
proof -
  have "0 < real_of_int (units_sold r) + 0.1"
    using assms(2) by (simp add: add_nonneg_pos)
  moreover have "0 < real_of_int (inventory_level r)" using assms(1) by simp
  ultimately show ?thesis
    unfolding inventory_days_add_metrics by (intro mult_pos_pos divide_pos_pos) simp_all
qed

text \<open>
  Claim C10, as amended. On every row the query delivers (so \<open>inventory_level > 0\<close>) with non-negative
  \<^verbatim>\<open>units_sold\<close>, \<^verbatim>\<open>inventory_days\<close> is strictly positive, hence above the first bin edge
  \<open>0\<close>, and the row gets an \<^verbatim>\<open>inventory_category\<close>: none is left unlabelled.
\<close>

theorem every_row_categorized:
  assumes "m \<in> set (calculate_inventory_metrics (load_data tbl))" "0 \<le> units_sold m"
  shows "0 < inventory_days m \<and> inventory_category m \<noteq> None"
proof -
  from assms(1) obtain r where r: "r \<in> set tbl" "where_clause r" "m = add_metrics (select_row r)"
    by (auto simp: calculate_inventory_metrics_def load_data_def)
  have "0 < inventory_days m"
    using r assms(2) by (simp add: inventory_days_pos where_clause_def)
  moreover have "inventory_category m = cut (inventory_days m) inventory_bins inventory_labels"
    using r(3) by (simp add: inventory_category_add_metrics)
  ultimately show ?thesis by (simp add: cut_inventory)
qed

lemma denom_nonzero: "real_of_int u + 1 / 10 \<noteq> 0"
proof
  assume "real_of_int u + 1 / 10 = 0"
  then have "real_of_int (10 * u + 1) = 0" by simp
  then have "10 * u + 1 = 0" by (simp only: of_int_eq_0_iff)
  then show False by presburger
qed

lemma days_eq_iff:
  "real_of_int i / (real_of_int u + 1 / 10) * 30 = real_of_int c
     \<longleftrightarrow> 300 * i = c * (10 * u + 1)"
proof -
  have "real_of_int i / (real_of_int u + 1 / 10) * 30 = real_of_int c
      \<longleftrightarrow> real_of_int i * 30 = real_of_int c * (real_of_int u + 1 / 10)"
    using denom_nonzero [of u] by (simp add: field_simps)
  also have "\<dots> \<longleftrightarrow> real_of_int (300 * i) = real_of_int (c * (10 * u + 1))"
  proof -
    have "real_of_int (300 * i) = 10 * (real_of_int i * 30)" by simp
    moreover have "real_of_int (c * (10 * u + 1)) = 10 * (real_of_int c * (real_of_int u + 1 / 10))"
      by (simp add: algebra_simps)
    ultimately show ?thesis by (simp only: mult_cancel_left) simp
  qed
  also have "\<dots> \<longleftrightarrow> 300 * i = c * (10 * u + 1)"
    by (simp only: of_int_eq_iff)
  finally show ?thesis .
qed

lemma boundary_15: "300 * i \<noteq> 15 * (10 * u + 1)" for i u :: int
proof
  assume "300 * i = 15 * (10 * u + 1)"
  then have "15 * (20 * i) = 15 * (10 * u + 1)" by simp
  then have "20 * i = 10 * u + 1" by (simp only: mult_cancel_left) simp
  then show False by presburger
qed
lemma boundary_30: "300 * i \<noteq> 30 * (10 * u + 1)" for i u :: int
proof
  assume "300 * i = 30 * (10 * u + 1)"
  then have "30 * (10 * i) = 30 * (10 * u + 1)" by simp
  then have "10 * i = 10 * u + 1" by (simp only: mult_cancel_left) simp
  then show False by presburger
qed
lemma boundary_60: "300 * i \<noteq> 60 * (10 * u + 1)" for i u :: int
proof
  assume "300 * i = 60 * (10 * u + 1)"
  then have "60 * (5 * i) = 60 * (10 * u + 1)" by simp
  then have "5 * i = 10 * u + 1" by (simp only: mult_cancel_left) simp
  then show False by presburger
qed

lemma inventory_days_off_boundary:
  "inventory_days (add_metrics r) \<noteq> 15 \<and> inventory_days (add_metrics r) \<noteq> 30
   \<and> inventory_days (add_metrics r) \<noteq> 60"
proof -
  show ?thesis
    using boundary_15 boundary_30 boundary_60 days_eq_iff [of "inventory_level r" "units_sold r" 15]
      days_eq_iff [of "inventory_level r" "units_sold r" 30]
      days_eq_iff [of "inventory_level r" "units_sold r" 60]
    by (simp add: inventory_days_add_metrics)
qed

lemma dead_stock_turnover:
  assumes "0 < i" "u \<le> 1" "90 < real_of_int i / (real_of_int u + 1 / 10) * 30"
  shows "real_of_int u / real_of_int i < 3 / 10"
proof (cases "u \<le> 0")
  case True
  then have "real_of_int u / real_of_int i \<le> 0"
    using assms(1) by (simp add: divide_nonpos_pos)
  also have "(0::real) < 3 / 10" by simp
  finally show ?thesis .
next
  case False
  with assms(2) have u: "u = 1" by simp
  from assms(3) have "90 * (11 / 10) < real_of_int i * 30"
    unfolding u by (simp add: field_simps)
  then have "real_of_int 99 < real_of_int (30 * i)" by simp
  then have "99 < 30 * i" by (simp only: of_int_less_iff)
  then have "4 \<le> i" by presburger
  then have "real_of_int 4 \<le> real_of_int i" by (simp only: of_int_le_iff)
  then show ?thesis unfolding u by (simp add: field_simps)
qed

text \<open>
  Claim C9. On the frame the pipeline builds from any table, every row of the dead-stock
  segment (\<open>inventory_days > 90\<close> and \<open>units_sold \<le> 1\<close>) is a row of the slow-moving segment
  (\<open>inventory_days > 45\<close> and \<open>turnover_ratio < 0.3\<close>). The integrality of the stock matters: one
  unit sold and more than 90 days mean a stock of at least 4, so a turnover of at most 1/4.
\<close>

theorem dead_stock_subset_slow_moving:
  assumes "identify_problem_areas (Some (calculate_inventory_metrics (load_data tbl))) = Inr (Some seg)"
  shows "set (dead_stock seg) \<subseteq> set (slow_moving seg)"
proof
  fix m assume m: "m \<in> set (dead_stock seg)"
  let ?df = "calculate_inventory_metrics (load_data tbl)"
  from assms have seg: "dead_stock seg = filter (\<lambda>r. inventory_days r > 90 \<and> units_sold r \<le> 1) ?df"
    "slow_moving seg = filter (\<lambda>r. inventory_days r > 45 \<and> turnover_ratio r < 0.3) ?df"
    by (auto simp: identify_problem_areas_def dead_stock_items_def slow_moving_items_def)
  from m seg(1) have mdf: "m \<in> set ?df" and d: "inventory_days m > 90" and u: "units_sold m \<le> 1"
    by auto
  from mdf obtain r where r: "where_clause r" "m = add_metrics (select_row r)"
    by (auto simp: calculate_inventory_metrics_def load_data_def)
  have i: "0 < inventory_level r" using r(1) by (simp add: where_clause_def)
  have "turnover_ratio m = real_of_int (units_sold r) / real_of_int (inventory_level r)"
    using r(2) i by (simp add: turnover_ratio_select_row)
  moreover have "90 < real_of_int (inventory_level r) / (real_of_int (units_sold r) + 1 / 10) * 30"
    using d r(2) by (simp add: inventory_days_add_metrics)
  moreover have "units_sold r \<le> 1" using u r(2) by simp
  ultimately have "turnover_ratio m < 0.3"
    using dead_stock_turnover [OF i] by simp
  with d mdf show "m \<in> set (slow_moving seg)"
    by (simp add: seg(2))
qed

lemma inventory_days_nonzero:
  assumes "0 < inventory_level r"
  shows "inventory_days (add_metrics r) \<noteq> 0"
proof
  assume "inventory_days (add_metrics r) = 0"
  then have "real_of_int (inventory_level r) / (real_of_int (units_sold r) + 1 / 10) * 30
      = real_of_int 0"
    by (simp add: inventory_days_add_metrics)
  then have "300 * inventory_level r = 0 * (10 * units_sold r + 1)"
    by (simp only: days_eq_iff)
  with assms show False by simp
qed

text \<open>
  Claim C1. On every row of the frame, \<^verbatim>\<open>inventory_category\<close> follows the thresholds on
  \<^verbatim>\<open>inventory_days\<close>: from 0 to below 15 Fast Moving, from 15 to below 30 Normal, from 30 to
  below 60 Slow Moving, from 60 on Dead Stock; so a row with exactly 15 days is Normal, with
  exactly 30 Slow Moving, with exactly 60 Dead Stock. The bins of \<^verbatim>\<open>pd.cut\<close> are closed on the
  right (\<open>cut_inventory\<close>), and they give these labels because no row has exactly 0, 15, 30
  or 60 days: the stock and the sales are integers (\<open>inventory_days_off_boundary\<close>).
\<close>

theorem inventory_category_thresholds:
  assumes "m \<in> set (calculate_inventory_metrics (load_data tbl))"
  shows "(0 \<le> inventory_days m \<and> inventory_days m < 15 \<longrightarrow> inventory_category m = Some Fast_Moving)
       \<and> (15 \<le> inventory_days m \<and> inventory_days m < 30 \<longrightarrow> inventory_category m = Some Normal)
       \<and> (30 \<le> inventory_days m \<and> inventory_days m < 60 \<longrightarrow> inventory_category m = Some Slow_Moving)
       \<and> (60 \<le> inventory_days m \<longrightarrow> inventory_category m = Some Dead_Stock)"
proof -
  from assms obtain r where r: "where_clause r" "m = add_metrics (select_row r)"
    by (auto simp: calculate_inventory_metrics_def load_data_def)
  have "0 < inventory_level (select_row r)"
    using r(1) by (simp add: where_clause_def)
  then have "inventory_days m \<noteq> 0"
    unfolding r(2) by (rule inventory_days_nonzero)
  moreover have "inventory_days m \<noteq> 15" "inventory_days m \<noteq> 30" "inventory_days m \<noteq> 60"
    using inventory_days_off_boundary [of "select_row r"] by (simp_all add: r(2))
  moreover have "inventory_category m = cut (inventory_days m) inventory_bins inventory_labels"
    by (simp add: r(2) inventory_category_add_metrics)
  ultimately show ?thesis
    by (simp add: cut_inventory)
qed

subsection \<open>Group-by sums\<close>

lemma sum_groups:
  fixes val :: "'r \<Rightarrow> 'a::comm_monoid_add"
  assumes "finite K" "key ` set rows \<subseteq> K"
  shows "(\<Sum>k\<in>K. sum_list (map val (filter (\<lambda>r. key r = k) rows))) = sum_list (map val rows)"
  using assms(2)
proof (induction rows)
  case Nil
  then show ?case by simp
next
  case (Cons r rows)
  then have in_K: "key r \<in> K" and sub: "key ` set rows \<subseteq> K" by auto
  have "(\<Sum>k\<in>K. sum_list (map val (filter (\<lambda>x. key x = k) (r # rows))))
      = (\<Sum>k\<in>K. (if key r = k then val r else 0) + sum_list (map val (filter (\<lambda>x. key x = k) rows)))"
    by (intro sum.cong) auto
  also have "\<dots> = (\<Sum>k\<in>K. if key r = k then val r else 0)
                 + (\<Sum>k\<in>K. sum_list (map val (filter (\<lambda>x. key x = k) rows)))"
    by (rule sum.distrib)
  also have "(\<Sum>k\<in>K. if key r = k then val r else 0) = val r"
    using assms(1) in_K by simp
  finally show ?case using Cons.IH [OF sub] by simp
qed

lemma groupby_keys: "map fst (groupby key rows) = sort (remdups (map key rows))"
  by (simp add: groupby_def comp_def)

lemma groupby_reduce_sum:
  fixes val :: "'r \<Rightarrow> 'a::comm_monoid_add"
  shows "sum_list (map (\<lambda>(k, g). sum_list (map val g)) (groupby key rows)) = sum_list (map val rows)"
proof -
  let ?ks = "sort (remdups (map key rows))"
  let ?f = "\<lambda>k. sum_list (map val (filter (\<lambda>r. key r = k) rows))"
  have "sum_list (map (\<lambda>(k, g). sum_list (map val g)) (groupby key rows)) = sum_list (map ?f ?ks)"
    by (simp add: groupby_def comp_def)
  also have "\<dots> = sum ?f (set ?ks)"
    by (rule sum_list_distinct_conv_sum_set) simp
  also have "\<dots> = sum_list (map val rows)"
    by (rule sum_groups) simp_all
  finally show ?thesis .
qed

text \<open>
  Claim C5, as amended. For every frame, every grouping key and every integer column, the
  group sums of \<^verbatim>\<open>groupby(key)[col].sum()\<close> add up to the sum of the column over the whole
  frame; so do the two integer sums of the seasonal table. The sums of a float column are
  rounded at every addition and need not add up.
\<close>

theorem integer_partition_sum_law:
  "sum_list (map snd (groupby_sum_int key val df)) = sum_list (map val df)
   \<and> sum_list (map (\<lambda>(k, s). sm_units_sold s) (seasonal_metrics rows)) = sum_list (map units_sold rows)
   \<and> sum_list (map (\<lambda>(k, s). sm_overstock_units s) (seasonal_metrics rows))
       = sum_list (map overstock_units rows)"
proof -
  have "sum_list (map snd (groupby_sum_int key val df)) = sum_list (map val df)"
    using groupby_reduce_sum [of val key df]
    by (simp add: groupby_sum_int_def comp_def case_prod_unfold)
  moreover have "sum_list (map (\<lambda>(k, s). sm_units_sold s) (seasonal_metrics rows))
       = sum_list (map units_sold rows)"
    using groupby_reduce_sum [of units_sold "\<lambda>r. (seasonality r, category r)" rows]
    by (simp add: seasonal_metrics_def comp_def case_prod_unfold)
  moreover have "sum_list (map (\<lambda>(k, s). sm_overstock_units s) (seasonal_metrics rows))
       = sum_list (map overstock_units rows)"
    using groupby_reduce_sum [of overstock_units "\<lambda>r. (seasonality r, category r)" rows]
    by (simp add: seasonal_metrics_def comp_def case_prod_unfold)
  ultimately show ?thesis by simp
qed

subsection \<open>Float64 evaluation\<close>

lemma pow2_Suc: "pow2 (e + 1) = 2 * pow2 e"
proof (cases "0 \<le> e")
  case True
  then show ?thesis by (simp add: pow2_def nat_add_distrib)
next
  case False
  then have "nat (- e) = Suc (nat (- (e + 1)))" by simp
  with False show ?thesis by (simp add: pow2_def)
qed

lemma exponent_up_bounds:
  "1 \<le> x \<Longrightarrow> pow2 (exponent_up x) \<le> x \<and> x < pow2 (exponent_up x + 1)"
proof (induction x rule: exponent_up.induct)
  case (1 x)
  show ?case
  proof (cases "2 \<le> x")
    case True
    then have e: "exponent_up x = exponent_up (x / 2) + 1" by (subst exponent_up.simps) simp
    from True have "1 \<le> x / 2" by simp
    from "1.IH" [OF True this] show ?thesis
      unfolding e pow2_Suc by simp
  next
    case False
    then have "exponent_up x = 0" by (subst exponent_up.simps) simp
    with False "1.prems" show ?thesis by (simp add: pow2_def)
  qed
qed

lemma exponent_down_bounds:
  "0 < x \<Longrightarrow> x < 1 \<Longrightarrow> pow2 (exponent_down x) \<le> x \<and> x < pow2 (exponent_down x + 1)"
proof (induction x rule: exponent_down.induct)
  case (1 x)
  then have e: "exponent_down x = exponent_down (2 * x) - 1" by (subst exponent_down.simps) simp
  show ?case
  proof (cases "2 * x < 1")
    case True
    from "1.IH" [of] "1.prems" True
    have "pow2 (exponent_down (2 * x)) \<le> 2 * x \<and> 2 * x < pow2 (exponent_down (2 * x) + 1)"
      by simp
    then show ?thesis
      unfolding e using pow2_Suc [of "exponent_down (2 * x) - 1"] pow2_Suc [of "exponent_down (2 * x)"]
      by simp
  next
    case False
    then have "exponent_down (2 * x) = 0" by (subst exponent_down.simps) simp
    with False "1.prems" show ?thesis
      unfolding e by (simp add: pow2_def)
  qed
qed

lemma exponent_bounds:
  assumes "x \<noteq> 0"
  shows "pow2 (exponent x) \<le> \<bar>x\<bar> \<and> \<bar>x\<bar> < pow2 (exponent x + 1)"
  using assms exponent_up_bounds [of "\<bar>x\<bar>"] exponent_down_bounds [of "\<bar>x\<bar>"]
  by (simp add: exponent_def)

lemma pow2_powr: "pow2 e = 2 powr real_of_int e"
  by (simp add: pow2_def powr_real_of_int field_simps)

lemma exponent_floor_log:
  assumes "x \<noteq> 0"
  shows "exponent x = \<lfloor>log 2 \<bar>x\<bar>\<rfloor>"
proof -
  have "2 powr real_of_int (exponent x) \<le> \<bar>x\<bar>"
    "\<bar>x\<bar> < 2 powr (real_of_int (exponent x) + 1)"
    using exponent_bounds [OF assms] by (simp_all add: pow2_powr)
  moreover have "0 < \<bar>x\<bar>" using assms by simp
  ultimately have "\<lfloor>log 2 \<bar>x\<bar>\<rfloor> = exponent x"
    by (simp add: floor_log_eq_powr_iff)
  then show ?thesis by simp
qed

subsection \<open>Quantiles and the segments\<close>

lemma quantile_mset:
  assumes "mset xs = mset ys"
  shows "quantile xs q = quantile ys q"
proof -
  have "sort xs = sort ys"
    using assms by (intro properties_for_sort) simp_all
  moreover have "length xs = length ys" using assms by (rule mset_eq_length)
  moreover have "xs = [] \<longleftrightarrow> ys = []" using \<open>length xs = length ys\<close> by auto
  ultimately show ?thesis by (simp add: quantile_def)
qed

lemma overstocked_pred_cong:
  assumes "mset (map overstock_units df') = mset (map overstock_units df)"
    and "mset (map efficiency_score df') = mset (map efficiency_score df)"
  shows "quantile (map (\<lambda>r. real_of_int (overstock_units r)) df') q
           = quantile (map (\<lambda>r. real_of_int (overstock_units r)) df) q"
    and "quantile (map efficiency_score df') q = quantile (map efficiency_score df) q"
proof -
  have "mset (map real_of_int (map overstock_units df')) = mset (map real_of_int (map overstock_units df))"
    using assms(1) by (simp only: mset_map)
  then have "mset (map (\<lambda>r. real_of_int (overstock_units r)) df')
      = mset (map (\<lambda>r. real_of_int (overstock_units r)) df)"
    by (simp add: comp_def)
  then show "quantile (map (\<lambda>r. real_of_int (overstock_units r)) df') q
           = quantile (map (\<lambda>r. real_of_int (overstock_units r)) df) q"
    by (rule quantile_mset)
  show "quantile (map efficiency_score df') q = quantile (map efficiency_score df) q"
    using assms(2) by (rule quantile_mset)
qed

text \<open>
  Claim C6. The overstocked segment does not depend on the order of the rows: a permutation
  of the frame has the same overstocked rows. Whether a row is overstocked depends only on its
  own \<^verbatim>\<open>overstock_units\<close> and \<^verbatim>\<open>efficiency_score\<close> and on the multisets of the two columns.
\<close>

theorem overstocked_order_invariant:
  "(mset df' = mset df \<longrightarrow> mset (overstocked_items df') = mset (overstocked_items df)) \<and>
   (mset (map overstock_units df') = mset (map overstock_units df) \<and>
    mset (map efficiency_score df') = mset (map efficiency_score df) \<and>
    r \<in> set df \<and> r' \<in> set df' \<and>
    overstock_units r' = overstock_units r \<and> efficiency_score r' = efficiency_score r
    \<longrightarrow> (r' \<in> set (overstocked_items df') \<longleftrightarrow> r \<in> set (overstocked_items df)))"
proof (intro conjI impI)
  assume eq: "mset df' = mset df"
  then have cols: "mset (map overstock_units df') = mset (map overstock_units df)"
    "mset (map efficiency_score df') = mset (map efficiency_score df)"
    by (metis mset_map)+
  show "mset (overstocked_items df') = mset (overstocked_items df)"
    unfolding overstocked_items_def mset_filter
      overstocked_pred_cong [OF cols] eq ..
next
  assume a: "mset (map overstock_units df') = mset (map overstock_units df) \<and>
    mset (map efficiency_score df') = mset (map efficiency_score df) \<and>
    r \<in> set df \<and> r' \<in> set df' \<and>
    overstock_units r' = overstock_units r \<and> efficiency_score r' = efficiency_score r"
  then have cols: "mset (map overstock_units df') = mset (map overstock_units df)"
    "mset (map efficiency_score df') = mset (map efficiency_score df)" by simp_all
  show "r' \<in> set (overstocked_items df') \<longleftrightarrow> r \<in> set (overstocked_items df)"
    using a by (simp add: overstocked_items_def overstocked_pred_cong [OF cols])
qed

lemma mset_analysed: "mset tbl' = mset tbl \<Longrightarrow> mset (analysed tbl') = mset (analysed tbl)"
  by (simp add: analysed_def calculate_inventory_metrics_def load_data_def)

text \<open>
  Claim C2, as amended. \<^verbatim>\<open>identify_problem_areas\<close> raises on no frame. The quantile of an
  empty column is NaN, every comparison with it is false, and on the empty frame the method
  returns the three segments, all empty.
\<close>

theorem problem_areas_never_raise:
  "(\<exists>s. identify_problem_areas df = Inr s) \<and>
   quantile [] q = None \<and>
   identify_problem_areas (Some []) = Inr (Some \<lparr>slow_moving = [], overstocked = [], dead_stock = []\<rparr>)"
  by (simp add: identify_problem_areas_def quantile_def slow_moving_items_def
      overstocked_items_def dead_stock_items_def split: option.split)

text \<open>
  The claim C2 as stated has the method fail on the empty frame; it returns three empty
  segments instead.
\<close>

theorem empty_table_counterexample:
  "\<not> isl (identify_problem_areas (Some []))
   \<and> identify_problem_areas (Some []) = Inr (Some \<lparr>slow_moving = [], overstocked = [], dead_stock = []\<rparr>)"
  by (simp add: identify_problem_areas_def slow_moving_items_def
      overstocked_items_def dead_stock_items_def)

lemma relationship_names_distinct:
  "distinct (map (\<lambda>rel. (fst (fst rel), fst (snd rel))) relationships_to_test)"
  by (simp add: relationships_to_test_def)

lemma relationship_names:
  assumes "rel \<in> set relationships_to_test" "rel' \<in> set relationships_to_test"
     "fst (fst rel') = fst (fst rel)" "fst (snd rel') = fst (snd rel)"
  shows "rel' = rel"
proof -
  have "inj_on (\<lambda>rel. (fst (fst rel), fst (snd rel))) (set relationships_to_test)"
    using relationship_names_distinct by (simp only: distinct_map)
  then show ?thesis
    using assms by (auto dest: inj_onD)
qed

lemma dropna_filter:
  "dropna ps = map (\<lambda>(a, b). (the a, the b)) (filter (\<lambda>(a, b). a \<noteq> None \<and> b \<noteq> None) ps)"
  by (induction ps rule: dropna.induct) auto

lemma clean_data_filter:
  "clean_data rel df =
     map (\<lambda>r. (the (snd (fst rel) r), the (snd (snd rel) r)))
       (filter (\<lambda>r. snd (fst rel) r \<noteq> None \<and> snd (snd rel) r \<noteq> None) df)"
  by (simp add: clean_data_def dropna_filter filter_map comp_def)

lemma filter_test_relationship:
  "filter (\<lambda>t. var1 t = a \<and> var2 t = b) (test_relationship pearsonr df rel)
     = (if fst (fst rel) = a \<and> fst (snd rel) = b then test_relationship pearsonr df rel else [])"
  by (simp add: test_relationship_def Let_def case_prod_unfold)

lemma concat_single:
  assumes "distinct xs" "x \<in> set xs"
  shows "concat (map (\<lambda>y. if y = x then f y else []) xs) = f x"
  using assms by (induction xs) (auto simp: concat_eq_Nil_conv)

lemma relationships_distinct: "distinct relationships_to_test"
  using relationship_names_distinct by (rule distinct_map [THEN iffD1, THEN conjunct1])

text \<open>
  Claim C4. For each of the three pairs of \<^verbatim>\<open>relationships_to_test\<close>, the observations are
  the rows where neither value is NaN, and the results reported for the pair are: when more
  than 10 observations remain, the one result that carries the coefficient and the p-value
  that \<^verbatim>\<open>pearsonr\<close> returns on the two cleaned columns, with its verdict at the 0.05 level;
  with 10 or fewer, nothing.
\<close>

theorem correlation_test_threshold:
  assumes "rel \<in> set relationships_to_test"
  shows "clean_data rel df =
           map (\<lambda>r. (the (snd (fst rel) r), the (snd (snd rel) r)))
             (filter (\<lambda>r. snd (fst rel) r \<noteq> None \<and> snd (snd rel) r \<noteq> None) df)
       \<and> filter (\<lambda>t. var1 t = fst (fst rel) \<and> var2 t = fst (snd rel)) (significance_tests pearsonr df)
           = (if 10 < length (clean_data rel df)
              then [\<lparr>var1 = fst (fst rel), var2 = fst (snd rel),
                     correlation = fst (pearsonr (map fst (clean_data rel df)) (map snd (clean_data rel df))),
                     p_value = snd (pearsonr (map fst (clean_data rel df)) (map snd (clean_data rel df))),
                     significance =
                       (if snd (pearsonr (map fst (clean_data rel df)) (map snd (clean_data rel df))) < 0.05
                        then ''Significant'' else ''Not Significant'')\<rparr>]
              else [])"
proof
  show "clean_data rel df =
           map (\<lambda>r. (the (snd (fst rel) r), the (snd (snd rel) r)))
             (filter (\<lambda>r. snd (fst rel) r \<noteq> None \<and> snd (snd rel) r \<noteq> None) df)"
    by (rule clean_data_filter)
next
  let ?p = "\<lambda>t. var1 t = fst (fst rel) \<and> var2 t = fst (snd rel)"
  have "filter ?p (significance_tests pearsonr df)
      = concat (map (\<lambda>rel'. filter ?p (test_relationship pearsonr df rel')) relationships_to_test)"
    by (simp add: significance_tests_def filter_concat comp_def)
  also have "\<dots> = concat (map (\<lambda>rel'. if rel' = rel then test_relationship pearsonr df rel' else [])
      relationships_to_test)"
  proof (rule arg_cong [where f = concat], rule map_cong [OF refl])
    fix rel' assume "rel' \<in> set relationships_to_test"
    then have "(fst (fst rel') = fst (fst rel) \<and> fst (snd rel') = fst (snd rel)) = (rel' = rel)"
      using relationship_names [OF assms, of rel'] by auto
    then show "filter ?p (test_relationship pearsonr df rel')
        = (if rel' = rel then test_relationship pearsonr df rel' else [])"
      by (simp only: filter_test_relationship)
  qed
  also have "\<dots> = test_relationship pearsonr df rel"
    using relationships_distinct assms by (rule concat_single)
  finally show "filter ?p (significance_tests pearsonr df)
           = (if 10 < length (clean_data rel df)
              then [\<lparr>var1 = fst (fst rel), var2 = fst (snd rel),
                     correlation = fst (pearsonr (map fst (clean_data rel df)) (map snd (clean_data rel df))),
                     p_value = snd (pearsonr (map fst (clean_data rel df)) (map snd (clean_data rel df))),
                     significance =
                       (if snd (pearsonr (map fst (clean_data rel df)) (map snd (clean_data rel df))) < 0.05
                        then ''Significant'' else ''Not Significant'')\<rparr>]
              else [])"
    by (simp add: test_relationship_def Let_def case_prod_unfold)
qed

lemma scan_max_first:
  "\<exists>pre post. b # xs = pre @ scan_max b xs # post
     \<and> (\<forall>p \<in> set pre. snd p < snd (scan_max b xs))
     \<and> (\<forall>p \<in> set post. snd p \<le> snd (scan_max b xs))"
proof (induction xs arbitrary: b)
  case Nil
  have "[b] = [] @ scan_max b [] # [] \<and> (\<forall>p \<in> set []. snd p < snd (scan_max b []))
     \<and> (\<forall>p \<in> set []. snd p \<le> snd (scan_max b []))" by simp
  then show ?case by blast
next
  case (Cons x xs)
  show ?case
  proof (cases "snd b < snd (x)")
    case True
    then have sm: "scan_max b (x # xs) = scan_max x xs" by simp
    from Cons.IH [of x] obtain pre post where
      d: "x # xs = pre @ scan_max x xs # post"
      and lo: "\<forall>p \<in> set pre. snd p < snd (scan_max x xs)"
      and hi: "\<forall>p \<in> set post. snd p \<le> snd (scan_max x xs)" by blast
    have "snd x \<le> snd (scan_max x xs)"
    proof (cases pre)
      case Nil
      with d have "hd (x # xs) = hd (scan_max x xs # post)" by (simp only: append_Nil)
      then have "scan_max x xs = x" by (simp only: list.sel)
      then show ?thesis by (simp only: order_refl)
    next
      case (Cons y ys)
      with d have "hd (x # xs) = hd (y # ys @ scan_max x xs # post)" by (simp only: append_Cons)
      then have "x = y" by (simp only: list.sel)
      with lo Cons show ?thesis by simp
    qed
    with True have b: "snd b < snd (scan_max x xs)" by simp
    have "b # x # xs = (b # pre) @ scan_max x xs # post"
      using d by simp
    moreover have "\<forall>p \<in> set (b # pre). snd p < snd (scan_max x xs)"
      using lo b by simp
    ultimately show ?thesis
      unfolding sm using hi by blast
  next
    case False
    then have sm: "scan_max b (x # xs) = scan_max b xs" by simp
    from Cons.IH [of b] obtain pre post where
      d: "b # xs = pre @ scan_max b xs # post"
      and lo: "\<forall>p \<in> set pre. snd p < snd (scan_max b xs)"
      and hi: "\<forall>p \<in> set post. snd p \<le> snd (scan_max b xs)" by blast
    show ?thesis
    proof (cases pre)
      case Nil
      with d have e: "b # xs = scan_max b xs # post" by (simp only: append_Nil)
      then have "hd (b # xs) = hd (scan_max b xs # post)" "tl (b # xs) = tl (scan_max b xs # post)"
        by (simp_all only:)
      then have r: "scan_max b xs = b" "post = xs" by (simp_all only: list.sel)
      have "b # x # xs = [] @ b # (x # xs)" by simp
      moreover have "\<forall>p \<in> set (x # xs). snd p \<le> snd (b)"
        using hi False unfolding r by auto
      ultimately show ?thesis
        unfolding sm r by fastforce
    next
      case (Cons y ys)
      with d have "hd (b # xs) = hd (y # ys @ scan_max b xs # post)"
        "tl (b # xs) = tl (y # ys @ scan_max b xs # post)" by (simp_all only: append_Cons)
      then have y: "b = y" and xs: "xs = ys @ scan_max b xs # post" by (simp_all only: list.sel)
      from lo Cons y have b: "snd b < snd (scan_max b xs)" by simp
      with False have "snd x < snd (scan_max b xs)" by simp
      with lo b Cons y have "\<forall>p \<in> set (b # x # ys). snd p < snd (scan_max b xs)" by simp
      moreover have "b # x # xs = (b # x # ys) @ scan_max b xs # post"
        using xs by simp
      ultimately show ?thesis
        unfolding sm using hi by blast
    qed
  qed
qed

lemma scan_min_first:
  "\<exists>pre post. b # xs = pre @ scan_min b xs # post
     \<and> (\<forall>p \<in> set pre. snd (scan_min b xs) < snd p)
     \<and> (\<forall>p \<in> set post. snd (scan_min b xs) \<le> snd p)"
proof (induction xs arbitrary: b)
  case Nil
  have "[b] = [] @ scan_min b [] # [] \<and> (\<forall>p \<in> set []. snd (scan_min b []) < snd p)
     \<and> (\<forall>p \<in> set []. snd (scan_min b []) \<le> snd p)" by simp
  then show ?case by blast
next
  case (Cons x xs)
  show ?case
  proof (cases "snd (x) < snd b")
    case True
    then have sm: "scan_min b (x # xs) = scan_min x xs" by simp
    from Cons.IH [of x] obtain pre post where
      d: "x # xs = pre @ scan_min x xs # post"
      and lo: "\<forall>p \<in> set pre. snd (scan_min x xs) < snd p"
      and hi: "\<forall>p \<in> set post. snd (scan_min x xs) \<le> snd p" by blast
    have "snd (scan_min x xs) \<le> snd x"
    proof (cases pre)
      case Nil
      with d have "hd (x # xs) = hd (scan_min x xs # post)" by (simp only: append_Nil)
      then have "scan_min x xs = x" by (simp only: list.sel)
      then show ?thesis by (simp only: order_refl)
    next
      case (Cons y ys)
      with d have "hd (x # xs) = hd (y # ys @ scan_min x xs # post)" by (simp only: append_Cons)
      then have "x = y" by (simp only: list.sel)
      with lo Cons show ?thesis by simp
    qed
    with True have b: "snd (scan_min x xs) < snd b" by simp
    have "b # x # xs = (b # pre) @ scan_min x xs # post"
      using d by simp
    moreover have "\<forall>p \<in> set (b # pre). snd (scan_min x xs) < snd p"
      using lo b by simp
    ultimately show ?thesis
      unfolding sm using hi by blast
  next
    case False
    then have sm: "scan_min b (x # xs) = scan_min b xs" by simp
    from Cons.IH [of b] obtain pre post where
      d: "b # xs = pre @ scan_min b xs # post"
      and lo: "\<forall>p \<in> set pre. snd (scan_min b xs) < snd p"
      and hi: "\<forall>p \<in> set post. snd (scan_min b xs) \<le> snd p" by blast
    show ?thesis
    proof (cases pre)
      case Nil
      with d have e: "b # xs = scan_min b xs # post" by (simp only: append_Nil)
      then have "hd (b # xs) = hd (scan_min b xs # post)" "tl (b # xs) = tl (scan_min b xs # post)"
        by (simp_all only:)
      then have r: "scan_min b xs = b" "post = xs" by (simp_all only: list.sel)
      have "b # x # xs = [] @ b # (x # xs)" by simp
      moreover have "\<forall>p \<in> set (x # xs). snd (b) \<le> snd p"
        using hi False unfolding r by auto
      ultimately show ?thesis
        unfolding sm r by fastforce
    next
      case (Cons y ys)
      with d have "hd (b # xs) = hd (y # ys @ scan_min b xs # post)"
        "tl (b # xs) = tl (y # ys @ scan_min b xs # post)" by (simp_all only: append_Cons)
      then have y: "b = y" and xs: "xs = ys @ scan_min b xs # post" by (simp_all only: list.sel)
      from lo Cons y have b: "snd (scan_min b xs) < snd b" by simp
      with False have "snd (scan_min b xs) < snd x" by simp
      with lo b Cons y have "\<forall>p \<in> set (b # x # ys). snd (scan_min b xs) < snd p" by simp
      moreover have "b # x # xs = (b # x # ys) @ scan_min b xs # post"
        using xs by simp
      ultimately show ?thesis
        unfolding sm using hi by blast
    qed
  qed
qed

lemma idxmax_first:
  assumes "idxmax tbl = Inr k"
  shows "\<exists>pre v post. tbl = pre @ (k, v) # post
     \<and> (\<forall>p \<in> set pre. snd p < v) \<and> (\<forall>p \<in> set post. snd p \<le> v)"
proof (cases tbl)
  case Nil
  with assms show ?thesis by simp
next
  case (Cons b xs)
  with assms have k: "k = fst (scan_max b xs)" by simp
  from scan_max_first [of b xs] obtain pre post where
    "b # xs = pre @ scan_max b xs # post"
    "\<forall>p \<in> set pre. snd p < snd (scan_max b xs)"
    "\<forall>p \<in> set post. snd p \<le> snd (scan_max b xs)" by blast
  then have "tbl = pre @ (k, snd (scan_max b xs)) # post
     \<and> (\<forall>p \<in> set pre. snd p < snd (scan_max b xs))
     \<and> (\<forall>p \<in> set post. snd p \<le> snd (scan_max b xs))"
    using Cons k by simp
  then show ?thesis by blast
qed

lemma idxmin_first:
  assumes "idxmin tbl = Inr k"
  shows "\<exists>pre v post. tbl = pre @ (k, v) # post
     \<and> (\<forall>p \<in> set pre. v < snd p) \<and> (\<forall>p \<in> set post. v \<le> snd p)"
proof (cases tbl)
  case Nil
  with assms show ?thesis by simp
next
  case (Cons b xs)
  with assms have k: "k = fst (scan_min b xs)" by simp
  from scan_min_first [of b xs] obtain pre post where
    "b # xs = pre @ scan_min b xs # post"
    "\<forall>p \<in> set pre. snd (scan_min b xs) < snd p"
    "\<forall>p \<in> set post. snd (scan_min b xs) \<le> snd p" by blast
  then have "tbl = pre @ (k, snd (scan_min b xs)) # post
     \<and> (\<forall>p \<in> set pre. snd (scan_min b xs) < snd p)
     \<and> (\<forall>p \<in> set post. snd (scan_min b xs) \<le> snd p)"
    using Cons k by simp
  then show ?thesis by blast
qed

lemma groupby_keys_distinct: "distinct (map fst (groupby key rows))"
  by (simp add: groupby_keys)

lemma groupby_keys_sorted: "sorted (map fst (groupby key rows))"
  by (simp add: groupby_keys)

lemma groupby_mean_keys: "map fst (groupby_mean key val rows) = map fst (groupby key rows)"
  by (simp add: groupby_mean_def comp_def case_prod_unfold)

lemma regional_efficiency_keys: "map fst (regional_efficiency df) = map fst (groupby region df)"
  by (simp add: regional_efficiency_def regional_performance_def comp_def case_prod_unfold)

lemma mset_sort_values_desc: "mset (sort_values_desc s) = mset s"
  by (simp add: sort_values_desc_def)

lemma sorted_bounds:
  assumes "sorted (map snd t)" "p \<in> set t"
  shows "snd (hd t) \<le> snd p \<and> snd p \<le> snd (last t)"
proof -
  from assms(2) obtain i where i: "i < length t" "t ! i = p"
    by (auto simp: in_set_conv_nth)
  then have ne: "t \<noteq> []" by auto
  have "map snd t ! 0 \<le> map snd t ! i"
    using assms(1) i(1) by (intro sorted_nth_mono) simp_all
  moreover have "map snd t ! i \<le> map snd t ! (length t - 1)"
    using assms(1) i(1) by (intro sorted_nth_mono) simp_all
  ultimately show ?thesis
    using i ne by (simp add: hd_conv_nth last_conv_nth)
qed

lemma sort_values_desc_ends:
  assumes "p \<in> set s"
  shows "snd (last (sort_values_desc s)) \<le> snd p \<and> snd p \<le> snd (hd (sort_values_desc s))"
proof -
  let ?t = "sort_key snd (rev s)"
  have pt: "p \<in> set ?t" using assms by simp
  then have ne: "?t \<noteq> []" by (cases ?t) simp_all
  have "sorted (map snd ?t)" by simp
  from this pt have "snd (hd ?t) \<le> snd p \<and> snd p \<le> snd (last ?t)"
    by (rule sorted_bounds)
  then show ?thesis
    using ne by (simp add: sort_values_desc_def hd_rev last_rev)
qed

lemma distinct_hd_last:
  assumes "distinct xs" "2 \<le> length xs"
  shows "hd xs \<noteq> last xs"
proof -
  have len: "0 < length xs" "length xs - 1 < length xs"
    using assms(2) by linarith+
  then have ne: "xs \<noteq> []" by (cases xs) simp_all
  have "(xs ! 0 = xs ! (length xs - 1)) = (0 = length xs - 1)"
    by (rule nth_eq_iff_index_eq [OF assms(1) len])
  moreover have "0 \<noteq> length xs - 1" using assms(2) by linarith
  ultimately have "xs ! 0 \<noteq> xs ! (length xs - 1)" by simp
  then show ?thesis
    using ne by (simp add: hd_conv_nth last_conv_nth)
qed

lemma season_extremes:
  assumes "best_season df = Inr k" "worst_season df = Inr k'"
  shows "\<exists>v v'. (k, v) \<in> set (groupby_mean seasonality efficiency_score df)
      \<and> (k', v') \<in> set (groupby_mean seasonality efficiency_score df)
      \<and> (\<forall>p \<in> set (groupby_mean seasonality efficiency_score df). v' \<le> snd p \<and> snd p \<le> v)
      \<and> (2 \<le> length (groupby_mean seasonality efficiency_score df) \<longrightarrow> k \<noteq> k')"
proof -
  let ?G = "groupby_mean seasonality efficiency_score df"
  let ?S = "seasonal_perf df"
  have S: "?S = sort_values_desc ?G" by (simp add: seasonal_perf_def)
  from assms(1) have ne: "?S \<noteq> []" by (auto simp: best_season_def split: list.splits)
  from assms have k: "k = fst (hd ?S)" and k': "k' = fst (last ?S)"
    by (auto simp: best_season_def worst_season_def split: list.splits)
  have set_S: "set ?S = set ?G"
    unfolding S by (rule mset_eq_setD) (rule mset_sort_values_desc)
  have "hd ?S \<in> set ?S" "last ?S \<in> set ?S"
    using ne by (rule hd_in_set, rule last_in_set)
  then have mem: "hd ?S \<in> set ?G" "last ?S \<in> set ?G"
    by (simp_all only: set_S)
  have bounds: "\<forall>p \<in> set ?G. snd (last ?S) \<le> snd p \<and> snd p \<le> snd (hd ?S)"
    unfolding S using sort_values_desc_ends by blast
  have "k \<noteq> k'" if "2 \<le> length ?G"
  proof -
    have "mset (map fst ?S) = mset (map fst ?G)"
      unfolding S by (simp add: mset_sort_values_desc)
    moreover have "distinct (map fst ?G)"
      by (simp only: groupby_mean_keys groupby_keys_distinct)
    ultimately have "distinct (map fst ?S)"
      using mset_eq_imp_distinct_iff [of "map fst ?S" "map fst ?G"] by simp
    moreover have "2 \<le> length (map fst ?S)"
      using that mset_eq_length [OF mset_sort_values_desc [of ?G]] unfolding S by simp
    ultimately have "hd (map fst ?S) \<noteq> last (map fst ?S)"
      by (rule distinct_hd_last)
    then show ?thesis
      using ne by (simp add: k k' hd_map last_map)
  qed
  moreover have "(k, snd (hd ?S)) \<in> set ?G" "(k', snd (last ?S)) \<in> set ?G"
    using mem by (simp_all add: k k')
  ultimately show ?thesis
    using bounds by blast
qed

text \<open>
  Claim C8, as amended. The grouped tables list the groups by increasing key, each once.
  The best and the worst region (\<^verbatim>\<open>idxmax\<close>, \<^verbatim>\<open>idxmin\<close>) are the first group in that
  order that has the largest, respectively the smallest, score. The best and the worst season
  (first and last entry of the table sorted by decreasing score) have the largest and the
  smallest score, but they are two different groups as soon as there are two seasons, so on a
  tie of all seasons they are not both the first group.
\<close>

theorem best_worst_tie_break:
  "sorted (map fst (regional_efficiency df)) \<and> distinct (map fst (regional_efficiency df))
   \<and> sorted (map fst (groupby_mean seasonality efficiency_score df))
   \<and> distinct (map fst (groupby_mean seasonality efficiency_score df))
   \<and> (best_region df = Inr k \<longrightarrow>
      (\<exists>pre v post. regional_efficiency df = pre @ (k, v) # post
         \<and> (\<forall>p \<in> set pre. snd p < v) \<and> (\<forall>p \<in> set post. snd p \<le> v)))
   \<and> (worst_region df = Inr k \<longrightarrow>
      (\<exists>pre v post. regional_efficiency df = pre @ (k, v) # post
         \<and> (\<forall>p \<in> set pre. v < snd p) \<and> (\<forall>p \<in> set post. v \<le> snd p)))
   \<and> (best_season df = Inr s \<and> worst_season df = Inr s' \<longrightarrow>
      (\<exists>v v'. (s, v) \<in> set (groupby_mean seasonality efficiency_score df)
         \<and> (s', v') \<in> set (groupby_mean seasonality efficiency_score df)
         \<and> (\<forall>p \<in> set (groupby_mean seasonality efficiency_score df). v' \<le> snd p \<and> snd p \<le> v)
         \<and> (2 \<le> length (groupby_mean seasonality efficiency_score df) \<longrightarrow> s \<noteq> s')))"
proof -
  have "sorted (map fst (regional_efficiency df))" "distinct (map fst (regional_efficiency df))"
    "sorted (map fst (groupby_mean seasonality efficiency_score df))"
    "distinct (map fst (groupby_mean seasonality efficiency_score df))"
    by (simp_all only: regional_efficiency_keys groupby_mean_keys groupby_keys_sorted
        groupby_keys_distinct)
  then show ?thesis
    using idxmax_first [of "regional_efficiency df" k] idxmin_first [of "regional_efficiency df" k]
      season_extremes [of df s s']
    unfolding best_region_def worst_region_def by blast
qed

section \<open>Examples\<close>

lemmas eval_defs = analysed_def calculate_inventory_metrics_def load_data_def where_clause_def
  example_row_def select_row_def add_metrics_def row_defs Let_def cut_def inventory_bins_def
  inventory_labels_def sold_row_def unsold_row_def autumn_row_def winter_row_def books_row_def idle_row_def

lemma tied_scores:
  "groupby_mean seasonality efficiency_score (analysed [autumn_row, winter_row])
     = [(''Autumn'', 10), (''Winter'', 10)]"
  by (simp add: groupby_mean_def groupby_def mean_def eval_defs)

theorem profit_margin_formula_witness:
  "select_row sold_row \<in> set (load_data [sold_row, unsold_row])
   \<and> units_sold (select_row sold_row) > 0
   \<and> profit_margin (select_row sold_row) = 4 / 5
   \<and> select_row unsold_row \<in> set (load_data [sold_row, unsold_row])
   \<and> units_sold (select_row unsold_row) = 0
   \<and> profit_margin (select_row unsold_row) = 0"
  using profit_margin_formula [of "select_row sold_row" "[sold_row, unsold_row]"]
    profit_margin_formula [of "select_row unsold_row" "[sold_row, unsold_row]"]
  by (simp add: load_data_def where_clause_def sold_row_def unsold_row_def example_row_def)

theorem inventory_days_decreasing_witness:
  "inventory_days (add_metrics (select_row (example_row ''Toys'' ''North'' ''Winter'' 100 11 50 0)))
     < inventory_days (add_metrics (select_row (example_row ''Toys'' ''North'' ''Winter'' 100 10 50 0)))"
  using inventory_days_decreasing
    [of "select_row (example_row ''Toys'' ''North'' ''Winter'' 100 10 50 0)"
        "select_row (example_row ''Toys'' ''North'' ''Winter'' 100 11 50 0)"]
  by (simp add: example_row_def)

theorem every_row_categorized_witness:
  "add_metrics (select_row unsold_row) \<in> set (calculate_inventory_metrics (load_data [unsold_row]))
   \<and> 0 \<le> units_sold (add_metrics (select_row unsold_row))
   \<and> 0 < inventory_days (add_metrics (select_row unsold_row))
   \<and> inventory_category (add_metrics (select_row unsold_row)) \<noteq> None"
  using every_row_categorized [of "add_metrics (select_row unsold_row)" "[unsold_row]"]
  by (simp add: calculate_inventory_metrics_def load_data_def where_clause_def unsold_row_def
      example_row_def)

theorem dead_stock_subset_slow_moving_witness:
  "dead_stock_items (analysed [unsold_row, sold_row]) = [add_metrics (select_row unsold_row)]
   \<and> set (dead_stock_items (analysed [unsold_row, sold_row]))
       \<subseteq> set (slow_moving_items (analysed [unsold_row, sold_row]))"
proof -
  let ?df = "analysed [unsold_row, sold_row]"
  have "identify_problem_areas (Some (calculate_inventory_metrics (load_data [unsold_row, sold_row])))
      = Inr (Some \<lparr>slow_moving = slow_moving_items ?df, overstocked = overstocked_items ?df,
                   dead_stock = dead_stock_items ?df\<rparr>)"
    by (simp add: identify_problem_areas_def analysed_def)
  from dead_stock_subset_slow_moving [OF this]
  have "set (dead_stock_items ?df) \<subseteq> set (slow_moving_items ?df)" by simp
  moreover have "dead_stock_items ?df = [add_metrics (select_row unsold_row)]"
    by (simp add: dead_stock_items_def analysed_def calculate_inventory_metrics_def load_data_def
        where_clause_def inventory_days_add_metrics sold_row_def unsold_row_def example_row_def)
  ultimately show ?thesis by simp
qed

text \<open>
  The claim C8 as stated returns the first group for the maximum and for the minimum. Two
  seasons with the same score: Autumn is first, and it is not both the best and the worst.
\<close>

theorem season_tie_counterexample:
  "groupby_mean seasonality efficiency_score (analysed [autumn_row, winter_row])
     = [(''Autumn'', 10), (''Winter'', 10)]
   \<and> \<not> (best_season (analysed [autumn_row, winter_row]) = Inr ''Autumn''
        \<and> worst_season (analysed [autumn_row, winter_row]) = Inr ''Autumn'')"
  by (simp add: worst_season_def seasonal_perf_def sort_values_desc_def tied_scores)

lemma tied_regions:
  "regional_efficiency (analysed [autumn_row, winter_row]) = [(''East'', 10), (''West'', 10)]"
  by (simp add: regional_efficiency_def regional_performance_def groupby_def mean_def
      np_round_def round_half_even_def eval_defs)

theorem best_worst_tie_break_witness:
  "best_region (analysed [autumn_row, winter_row]) = Inr ''East''
   \<and> worst_region (analysed [autumn_row, winter_row]) = Inr ''East''
   \<and> best_season (analysed [autumn_row, winter_row]) = Inr ''Autumn''
   \<and> worst_season (analysed [autumn_row, winter_row]) = Inr ''Winter''
   \<and> (\<exists>pre v post. regional_efficiency (analysed [autumn_row, winter_row]) = pre @ (''East'', v) # post
         \<and> (\<forall>p \<in> set pre. v < snd p) \<and> (\<forall>p \<in> set post. v \<le> snd p))
   \<and> ''Autumn'' \<noteq> ''Winter''"
proof -
  let ?df = "analysed [autumn_row, winter_row]"
  have r: "best_region ?df = Inr ''East''" "worst_region ?df = Inr ''East''"
    by (simp_all add: best_region_def worst_region_def tied_regions)
  have s: "best_season ?df = Inr ''Autumn''" "worst_season ?df = Inr ''Winter''"
    by (simp_all add: best_season_def worst_season_def seasonal_perf_def sort_values_desc_def
        tied_scores)
  from best_worst_tie_break [of ?df "''East''" "''Autumn''" "''Winter''"] r s
  show ?thesis by (simp add: tied_scores)
qed

lemma overstocked_example:
  "overstocked_items (analysed [idle_row, books_row, autumn_row]) = [add_metrics (select_row idle_row)]"
  by (simp add: overstocked_items_def quantile_def eval_defs)

theorem overstocked_order_invariant_witness:
  "mset (analysed [autumn_row, books_row, idle_row]) = mset (analysed [idle_row, books_row, autumn_row])
   \<and> mset (overstocked_items (analysed [autumn_row, books_row, idle_row]))
       = mset (overstocked_items (analysed [idle_row, books_row, autumn_row]))
   \<and> add_metrics (select_row idle_row) \<in> set (overstocked_items (analysed [autumn_row, books_row, idle_row]))"
proof -
  let ?df = "analysed [idle_row, books_row, autumn_row]"
  let ?df' = "analysed [autumn_row, books_row, idle_row]"
  let ?r = "add_metrics (select_row idle_row)"
  have p: "mset ?df' = mset ?df"
    by (rule mset_analysed) (simp add: add_mset_commute)
  then have cols: "mset (map overstock_units ?df') = mset (map overstock_units ?df)"
    "mset (map efficiency_score ?df') = mset (map efficiency_score ?df)"
    by (simp_all only: mset_map)
  have mem: "?r \<in> set ?df" "?r \<in> set ?df'"
    by (simp_all add: analysed_def calculate_inventory_metrics_def load_data_def where_clause_def
        idle_row_def books_row_def autumn_row_def example_row_def)
  from overstocked_order_invariant [of ?df' ?df ?r ?r] p cols mem
  show ?thesis by (simp add: overstocked_example)
qed

lemmas eval_rows = calculate_inventory_metrics_def load_data_def where_clause_def example_row_def
  inventory_days_add_metrics

theorem inventory_category_thresholds_witness:
  "map inventory_category
     (calculate_inventory_metrics (load_data [fast_row, normal_row, slow_row, sold_row]))
     = [Some Fast_Moving, Some Normal, Some Slow_Moving, Some Dead_Stock]"
proof -
  let ?df = "calculate_inventory_metrics (load_data [fast_row, normal_row, slow_row, sold_row])"
  have df: "?df = [add_metrics (select_row fast_row), add_metrics (select_row normal_row),
      add_metrics (select_row slow_row), add_metrics (select_row sold_row)]"
    by (simp add: eval_rows fast_row_def normal_row_def slow_row_def sold_row_def)
  have days: "inventory_days (add_metrics (select_row fast_row)) = 300 / 101"
    "inventory_days (add_metrics (select_row normal_row)) = 3000 / 101"
    "inventory_days (add_metrics (select_row slow_row)) = 6000 / 101"
    "inventory_days (add_metrics (select_row sold_row)) = 30000 / 101"
    by (simp_all add: eval_rows fast_row_def normal_row_def slow_row_def sold_row_def)
  show ?thesis
    using inventory_category_thresholds [of "add_metrics (select_row fast_row)"
        "[fast_row, normal_row, slow_row, sold_row]"]
      inventory_category_thresholds [of "add_metrics (select_row normal_row)"
        "[fast_row, normal_row, slow_row, sold_row]"]
      inventory_category_thresholds [of "add_metrics (select_row slow_row)"
        "[fast_row, normal_row, slow_row, sold_row]"]
      inventory_category_thresholds [of "add_metrics (select_row sold_row)"
        "[fast_row, normal_row, slow_row, sold_row]"]
    unfolding df by (simp add: days)
qed

text \<open>
  The claim C7 as stated is for all values of \<^verbatim>\<open>units_sold\<close>. The column is a signed INT
  that neither the ingest nor the query checks: from -1 to 0 units sold, with a stock of 100,
  the inventory days rise.
\<close>

theorem negative_sales_counterexample:
  "select_row returns_row \<in> set (load_data [returns_row, no_sales_row])
   \<and> select_row no_sales_row \<in> set (load_data [returns_row, no_sales_row])
   \<and> inventory_level (select_row returns_row) = inventory_level (select_row no_sales_row)
   \<and> 0 < inventory_level (select_row returns_row)
   \<and> units_sold (select_row returns_row) < units_sold (select_row no_sales_row)
   \<and> inventory_days (add_metrics (select_row returns_row)) = - 10000 / 3
   \<and> inventory_days (add_metrics (select_row no_sales_row)) = 30000
   \<and> \<not> inventory_days (add_metrics (select_row no_sales_row))
         < inventory_days (add_metrics (select_row returns_row))"
  by (simp add: eval_rows returns_row_def no_sales_row_def)

text \<open>
  The claim C10 as stated is for every row the query delivers. A row with -1 units sold
  passes the WHERE clause; its inventory days are negative and it gets no category.
\<close>

theorem uncategorized_row_counterexample:
  "add_metrics (select_row returns_row) \<in> set (calculate_inventory_metrics (load_data [returns_row]))
   \<and> where_clause returns_row
   \<and> inventory_days (add_metrics (select_row returns_row)) < 0
   \<and> inventory_category (add_metrics (select_row returns_row)) = None"
  by (simp add: eval_rows returns_row_def inventory_category_add_metrics cut_inventory)

lemma units_by_category:
  "groupby_sum_int category units_sold (analysed [sold_row, books_row, unsold_row])
     = [(''Books'', 5), (''Toys'', 10)]"
  by (simp add: groupby_sum_int_def groupby_def eval_defs)

theorem integer_partition_sum_law_witness:
  "sum_list (map snd (groupby_sum_int category units_sold (analysed [sold_row, books_row, unsold_row]))) = 15
   \<and> sum_list (map units_sold (analysed [sold_row, books_row, unsold_row])) = 15"
  using integer_partition_sum_law [of category units_sold "analysed [sold_row, books_row, unsold_row]"
      "analysed [sold_row, books_row, unsold_row]"]
  by (simp add: units_by_category)

lemmas eval_dimes = analysed_def calculate_inventory_metrics_def load_data_def where_clause_def
  example_row_def select_row_def add_metrics_def row_defs Let_def cut_def inventory_bins_def
  inventory_labels_def dime_book_def dime_toy_def dear_book_def

lemma dimes_revenue:
  "map (\<lambda>r. (category r, net_revenue r)) (analysed [dime_book, dime_toy, dear_book])
     = [(''Books'', 1 / 10), (''Toys'', 1 / 10), (''Books'', 11 / 10)]"
  by (simp add: eval_dimes)

lemma f64_values:
  "float64 (1 / 10) = 3602879701896397 / 2 ^ 55"
  "float64 (11 / 10) = 2476979795053773 / 2 ^ 51"
  "float64 (3602879701896397 / 2 ^ 55) = 3602879701896397 / 2 ^ 55"
  "float64 (2476979795053773 / 2 ^ 51) = 2476979795053773 / 2 ^ 51"
  "float64 (3602879701896397 / 2 ^ 55 + 2476979795053773 / 2 ^ 51) = 1351079888211149 / 2 ^ 50"
  "float64 (1351079888211149 / 2 ^ 50) = 1351079888211149 / 2 ^ 50"
  "float64 (1351079888211149 / 2 ^ 50 + 3602879701896397 / 2 ^ 55) = 2927339757790823 / 2 ^ 51"
  "float64 (2927339757790823 / 2 ^ 51) = 2927339757790823 / 2 ^ 51"
  "float64 (3602879701896397 / 2 ^ 55 + 3602879701896397 / 2 ^ 55) = 3602879701896397 / 2 ^ 54"
  "float64 (3602879701896397 / 2 ^ 54 + 2476979795053773 / 2 ^ 51) = 5854679515581645 / 2 ^ 52"
  "float64 (5854679515581645 / 2 ^ 52) = 5854679515581645 / 2 ^ 52"
  by (simp_all add: float64_def exponent_def exponent_up.simps exponent_down.simps pow2_def
      round_half_even_def)

lemma float64_zero: "float64 0 = 0"
  by (simp add: float64_def)

lemma dimes_groups:
  "category_revenue (analysed [dime_book, dime_toy, dear_book])
     = [(''Books'', group_sum [float64 (1 / 10), float64 (11 / 10)]),
        (''Toys'', group_sum [float64 (1 / 10)])]"
  by (simp add: category_revenue_def groupby_def eval_dimes)

lemma dimes_column:
  "map (\<lambda>r. float64 (net_revenue r)) (analysed [dime_book, dime_toy, dear_book])
     = [float64 (1 / 10), float64 (1 / 10), float64 (11 / 10)]"
  by (simp add: eval_dimes)

lemmas f64_eval = group_sum_def kahan.simps seq_sum.simps np_sum_def fadd_def fsub_def Let_def
  diff_zero diff_self add_0 float64_zero f64_values

lemma dimes_group_sums:
  "group_sum [float64 (1 / 10), float64 (11 / 10)] = 1351079888211149 / 2 ^ 50"
  "group_sum [float64 (1 / 10)] = 3602879701896397 / 2 ^ 55"
  by (simp_all only: f64_eval)

lemma pairwise_small: "length a < 8 \<Longrightarrow> pairwise_sum a = seq_sum 0 a"
  by (simp add: Let_def)

lemma pairwise_short:
  "pairwise_sum [x, y] = seq_sum 0 [x, y]"
  "pairwise_sum [x, y, z] = seq_sum 0 [x, y, z]"
  by (simp_all only: pairwise_small length_Cons list.size)

text \<open>
  The claim C5 as stated is for every numeric column. Three rows with a net revenue of 0.1,
  0.1 and 1.1, the first and the third in one category: the sums by category add up to
  1.3000000000000003, the column to 1.3.
\<close>

theorem float_sum_counterexample:
  "np_sum (map snd (category_revenue (analysed [dime_book, dime_toy, dear_book])))
     = 2927339757790823 / 2 ^ 51
   \<and> total_revenue (analysed [dime_book, dime_toy, dear_book]) = 5854679515581645 / 2 ^ 52
   \<and> np_sum (map snd (category_revenue (analysed [dime_book, dime_toy, dear_book])))
     \<noteq> total_revenue (analysed [dime_book, dime_toy, dear_book])"
proof -
  have g: "np_sum (map snd (category_revenue (analysed [dime_book, dime_toy, dear_book])))
      = 2927339757790823 / 2 ^ 51"
    unfolding dimes_groups dimes_group_sums list.map snd_conv
    by (simp only: pairwise_short f64_eval)
  have t: "total_revenue (analysed [dime_book, dime_toy, dear_book]) = 5854679515581645 / 2 ^ 52"
    unfolding total_revenue_def dimes_column
    by (simp only: pairwise_short f64_eval)
  show ?thesis
    unfolding g t by simp
qed

lemma dropna_replicate: "dropna (replicate n (Some a, Some b)) = replicate n (a, b)"
  by (induction n) simp_all

lemma clean_replicate:
  "clean_data (relationships_to_test ! 0) (replicate n (add_metrics (select_row sold_row)))
     = replicate n (30000 / 101, 4 / 5)"
  by (simp add: clean_data_def relationships_to_test_def dropna_replicate
      inventory_days_add_metrics profit_margin_select_row sold_row_def example_row_def)

theorem correlation_test_threshold_witness:
  "relationships_to_test ! 0 \<in> set relationships_to_test
   \<and> filter (\<lambda>t. var1 t = ''inventory_days'' \<and> var2 t = ''profit_margin'')
        (significance_tests (\<lambda>xs ys. (sum_list xs, sum_list ys))
           (replicate 11 (add_metrics (select_row sold_row))))
       = [\<lparr>var1 = ''inventory_days'', var2 = ''profit_margin'', correlation = 330000 / 101,
           p_value = 44 / 5, significance = ''Not Significant''\<rparr>]
   \<and> filter (\<lambda>t. var1 t = ''inventory_days'' \<and> var2 t = ''profit_margin'')
        (significance_tests (\<lambda>xs ys. (sum_list xs, sum_list ys))
           (replicate 10 (add_metrics (select_row sold_row))))
       = []"
proof -
  have rel: "relationships_to_test ! 0 \<in> set relationships_to_test"
    by (simp add: relationships_to_test_def)
  have names: "fst (fst (relationships_to_test ! 0)) = ''inventory_days''"
    "fst (snd (relationships_to_test ! 0)) = ''profit_margin''"
    by (simp_all add: relationships_to_test_def)
  show ?thesis
    using rel
      correlation_test_threshold [OF rel, of "replicate 11 (add_metrics (select_row sold_row))"
        "\<lambda>xs ys. (sum_list xs, sum_list ys)"]
      correlation_test_threshold [OF rel, of "replicate 10 (add_metrics (select_row sold_row))"
        "\<lambda>xs ys. (sum_list xs, sum_list ys)"]
    unfolding names clean_replicate
    by (simp add: sum_list_replicate)
qed

theorem problem_areas_never_raise_witness:
  "\<exists>s. identify_problem_areas (Some (analysed [idle_row, books_row, autumn_row])) = Inr s"
  using problem_areas_never_raise [of "Some (analysed [idle_row, books_row, autumn_row])"]
  by simp

end
